theory Spec2Isabelle
  imports Complex_Main
begin

section \<open>Baseline RAG notebook: data model\<close>

text \<open>
  The development follows \<^verbatim>\<open>2_build_baseline_rag.ipynb\<close>. Python exceptions are
  values of \<open>error\<close>; a computation that may raise returns \<open>error + 'a\<close> with
  \<open>Inl\<close> for the exception. Python floats are idealised as exact rationals
  (\<open>rat\<close>): sums and quotients carry no rounding.
\<close>

datatype error =
    KeyError string
  | ValueError
  | IndexError
  | ZeroDivisionError
  | FileNotFoundError string
  | UnpicklingError
  | ClientError string

text \<open>A LangChain \<^verbatim>\<open>Document\<close>: text plus a metadata dictionary.\<close>

record document =
  page_content :: string
  metadata :: "string \<rightharpoonup> string"

text \<open>One entry of \<^verbatim>\<open>retriever_evaluation_data\<close> (cell 11).\<close>

record eval_record =
  ref_doc_id :: string
  question :: string

text \<open>The two numbers cells 13 and 15 print and log.\<close>

record retriever_metrics =
  hit_rate :: rat
  mrr :: rat

section \<open>Retriever evaluation (cells 13 and 15)\<close>

text \<open>
  \<^verbatim>\<open>[doc.metadata["unique_id"] for doc in returned_docs]\<close>: a document without the
  key raises \<^verbatim>\<open>KeyError\<close> and ends the comprehension.
\<close>

fun returned_doc_ids :: "document list \<Rightarrow> error + string list" where
  "returned_doc_ids [] = Inr []"
| "returned_doc_ids (doc # docs) =
     (case metadata doc ''unique_id'' of
        None \<Rightarrow> Inl (KeyError ''unique_id'')
      | Some uid \<Rightarrow>
          (case returned_doc_ids docs of
             Inl e \<Rightarrow> Inl e
           | Inr ids \<Rightarrow> Inr (uid # ids)))"

text \<open>
  Python's \<^verbatim>\<open>list.index(x)\<close>: a scan from the front, returning the 0-based index
  of the first element equal to \<open>x\<close>, \<^verbatim>\<open>ValueError\<close> when there is none.
\<close>

fun list_index :: "'a list \<Rightarrow> 'a \<Rightarrow> error + nat" where
  "list_index [] x = Inl ValueError"
| "list_index (y # ys) x =
     (if y = x then Inr 0
      else (case list_index ys x of Inl e \<Rightarrow> Inl e | Inr i \<Rightarrow> Inr (Suc i)))"

text \<open>
  The loop body. The state is the pair \<open>(correct, reciprocal_rank)\<close>; the retriever is
  the function \<open>invoke\<close> from a question to the documents it returns, or to the
  exception the call ends with (the dense retriever embeds the question through Bedrock).
  \<^verbatim>\<open>
    returned_docs = faiss_retriever.invoke(eval_data["question"])
    returned_doc_ids = [doc.metadata["unique_id"] for doc in returned_docs]
    if eval_data["ref_doc_id"] in returned_doc_ids:
        correct += 1
        reciprocal_rank += 1 / (returned_doc_ids.index(eval_data["ref_doc_id"]) + 1)
    else:
        continue
  \<close>
\<close>

type_synonym retriever = "string \<Rightarrow> error + document list"

definition eval_step ::
  "retriever \<Rightarrow> eval_record \<Rightarrow> nat \<times> rat \<Rightarrow> error + nat \<times> rat" where
  "eval_step invoke eval_data st =
     (case st of (correct, reciprocal_rank) \<Rightarrow>
        (case invoke (question eval_data) of
           Inl e \<Rightarrow> Inl e
         | Inr returned_docs \<Rightarrow>
             (case returned_doc_ids returned_docs of
                Inl e \<Rightarrow> Inl e
              | Inr ids \<Rightarrow>
                  if ref_doc_id eval_data \<in> set ids then
                    (case list_index ids (ref_doc_id eval_data) of
                       Inl e \<Rightarrow> Inl e
                     | Inr i \<Rightarrow> Inr (correct + 1, reciprocal_rank + 1 / (of_nat i + 1)))
                  else Inr (correct, reciprocal_rank))))"

text \<open>The \<^verbatim>\<open>for\<close> loop: the body on each example in order, stopping at an exception.\<close>

fun eval_loop ::
  "retriever \<Rightarrow> eval_record list \<Rightarrow> nat \<times> rat \<Rightarrow> error + nat \<times> rat" where
  "eval_loop invoke [] st = Inr st"
| "eval_loop invoke (eval_data # rest) st =
     (case eval_step invoke eval_data st of
        Inl e \<Rightarrow> Inl e
      | Inr st' \<Rightarrow> eval_loop invoke rest st')"

text \<open>
  The whole cell, with \<^verbatim>\<open>num_examples\<close> as a parameter: the loop runs over the
  slice \<^verbatim>\<open>retriever_evaluation_data[:num_examples]\<close> and both quotients divide by
  \<^verbatim>\<open>num_examples\<close> itself.
  \<^verbatim>\<open>
    hit_rate = correct / num_examples
    mrr = reciprocal_rank / num_examples
  \<close>
\<close>

definition retriever_evaluation ::
  "retriever \<Rightarrow> eval_record list \<Rightarrow> nat \<Rightarrow> error + retriever_metrics" where
  "retriever_evaluation invoke retriever_evaluation_data n =
     (case eval_loop invoke (take n retriever_evaluation_data) (0, 0) of
        Inl e \<Rightarrow> Inl e
      | Inr (correct, reciprocal_rank) \<Rightarrow>
          if n = 0 then Inl ZeroDivisionError
          else Inr \<lparr>hit_rate = of_nat correct / of_nat n,
                    mrr = reciprocal_rank / of_nat n\<rparr>)"

text \<open>The notebook fixes \<^verbatim>\<open>num_examples = 400\<close> in both cells.\<close>

definition num_examples :: nat where
  "num_examples = 400"

definition cell_13 ::
  "retriever \<Rightarrow> eval_record list \<Rightarrow> error + retriever_metrics" where
  "cell_13 invoke retriever_evaluation_data =
     retriever_evaluation invoke retriever_evaluation_data num_examples"


subsection \<open>The metrics as the notebook's prose defines them\<close>

text \<open>
  Cell 10 describes the hit rate as the share of questions whose relevant document is among
  the top-\<open>k\<close> results and the MRR as the average of the reciprocal ranks. The
  definitions below follow that description, to be compared with the loop above.
  \<open>example_ids\<close> is the id list returned for an example (empty where the retrieval or
  the id lookup raises).
\<close>

definition example_ids :: "retriever \<Rightarrow> eval_record \<Rightarrow> string list" where
  "example_ids invoke e =
     (case invoke (question e) of
        Inl _ \<Rightarrow> []
      | Inr returned_docs \<Rightarrow>
          (case returned_doc_ids returned_docs of Inl _ \<Rightarrow> [] | Inr ids \<Rightarrow> ids))"

definition first_position :: "string list \<Rightarrow> string \<Rightarrow> nat" where
  "first_position ids ref = Suc (length (takeWhile (\<lambda>y. y \<noteq> ref) ids))"

definition spec_reciprocal_rank :: "string list \<Rightarrow> string \<Rightarrow> rat" where
  "spec_reciprocal_rank ids ref =
     (if ref \<in> set ids then 1 / of_nat (first_position ids ref) else 0)"

definition spec_hit :: "string list \<Rightarrow> string \<Rightarrow> nat" where
  "spec_hit ids ref = (if ref \<in> set ids then 1 else 0)"

definition spec_mrr :: "retriever \<Rightarrow> eval_record list \<Rightarrow> rat" where
  "spec_mrr invoke examples =
     sum_list (map (\<lambda>e. spec_reciprocal_rank (example_ids invoke e) (ref_doc_id e)) examples)
       / of_nat (length examples)"

definition spec_hit_rate :: "retriever \<Rightarrow> eval_record list \<Rightarrow> rat" where
  "spec_hit_rate invoke examples =
     of_nat (length (filter (\<lambda>e. ref_doc_id e \<in> set (example_ids invoke e)) examples))
       / of_nat (length examples)"

section \<open>Answer evaluation with the guardrail (cells 25 and 29)\<close>

text \<open>
  One entry of the \<^verbatim>\<open>filters\<close> list of a contextual grounding assessment, and the
  response of \<^verbatim>\<open>apply_guardrail\<close> reduced to what the notebook reads: the list
  \<^verbatim>\<open>response["assessments"]\<close>, each assessment given by the filters of its
  \<^verbatim>\<open>contextualGroundingPolicy\<close>.
\<close>

record metric =
  mtype :: string
  score :: rat

type_synonym guardrail_response = "metric list list"

record guardrail_scores =
  grounding_score :: rat
  relevance_score :: rat

text \<open>\<^verbatim>\<open>xs[0]\<close>: \<^verbatim>\<open>IndexError\<close> on the empty list.\<close>

definition first_item :: "'a list \<Rightarrow> error + 'a" where
  "first_item xs = (case xs of [] \<Rightarrow> Inl IndexError | x # _ \<Rightarrow> Inr x)"

text \<open>
  \<open>apply_guardrail\<close> stands for the Bedrock call: guardrail id, grounding source, query
  and response text in, the response or the exception the client raises out.
\<close>

type_synonym guardrail_service =
  "string \<Rightarrow> string \<Rightarrow> string \<Rightarrow> string \<Rightarrow> error + guardrail_response"

definition invoke_rag_eval_guardrail ::
  "guardrail_service \<Rightarrow> string \<Rightarrow> string \<Rightarrow> string \<Rightarrow> string \<Rightarrow> error + guardrail_scores" where
  "invoke_rag_eval_guardrail apply_guardrail guardrail_id question_text context response =
     (case apply_guardrail guardrail_id context question_text response of
        Inl e \<Rightarrow> Inl e
      | Inr resp \<Rightarrow>
          (case first_item resp of
             Inl e \<Rightarrow> Inl e
           | Inr assessments \<Rightarrow>
               (case first_item (filter (\<lambda>m. mtype m = ''GROUNDING'') assessments) of
                  Inl e \<Rightarrow> Inl e
                | Inr g \<Rightarrow>
                    (case first_item (filter (\<lambda>m. mtype m = ''RELEVANCE'') assessments) of
                       Inl e \<Rightarrow> Inl e
                     | Inr r \<Rightarrow>
                         Inr \<lparr>grounding_score = score g, relevance_score = score r\<rparr>))))"

text \<open>\<^verbatim>\<open>sep.join(xs)\<close>.\<close>

fun join :: "string \<Rightarrow> string list \<Rightarrow> string" where
  "join sep [] = []"
| "join sep [x] = x"
| "join sep (x # y # ys) = x @ sep @ join sep (y # ys)"

text \<open>
  \<^verbatim>\<open>[result.result() for result in results]\<close>: the futures are read in submission
  order, and \<^verbatim>\<open>result()\<close> re-raises the exception its call ended with.
\<close>

fun collect_results :: "(error + 'a) list \<Rightarrow> error + 'a list" where
  "collect_results [] = Inr []"
| "collect_results (r # rs) =
     (case r of
        Inl e \<Rightarrow> Inl e
      | Inr row \<Rightarrow>
          (case collect_results rs of Inl e \<Rightarrow> Inl e | Inr rows \<Rightarrow> Inr (row # rows)))"

text \<open>
  The executor runs every submitted call to completion before the \<^verbatim>\<open>with\<close> block
  ends; each call depends on its own arguments only, so the list of futures is the list of
  the calls' outcomes in submission order.
\<close>

definition submit_all ::
  "guardrail_service \<Rightarrow> string \<Rightarrow> string list \<Rightarrow> string list list \<Rightarrow> string list
     \<Rightarrow> (error + guardrail_scores) list" where
  "submit_all apply_guardrail guardrail_id questions contexts answers =
     map (\<lambda>(question, context, answer).
            invoke_rag_eval_guardrail apply_guardrail guardrail_id question
              (join [CHR 0x0A] context) answer)
         (zip questions (zip contexts answers))"

definition evaluate_rag_guardrail ::
  "guardrail_service \<Rightarrow> string \<Rightarrow> string list \<Rightarrow> string list list \<Rightarrow> string list
     \<Rightarrow> error + rat \<times> rat" where
  "evaluate_rag_guardrail apply_guardrail guardrail_id questions contexts answers =
     (case collect_results (submit_all apply_guardrail guardrail_id questions contexts answers) of
        Inl e \<Rightarrow> Inl e
      | Inr eval_rows \<Rightarrow>
          (let grounding_scores = map grounding_score eval_rows;
               relevance_scores = map relevance_score eval_rows
           in if length grounding_scores = 0 then Inl ZeroDivisionError
              else Inr (sum_list grounding_scores / of_nat (length grounding_scores),
                        sum_list relevance_scores / of_nat (length relevance_scores))))"

text \<open>The scoring call the loop submits for the triple at index \<open>i\<close>.\<close>

definition scoring_call ::
  "guardrail_service \<Rightarrow> string \<Rightarrow> string list \<Rightarrow> string list list \<Rightarrow> string list \<Rightarrow> nat
     \<Rightarrow> error + guardrail_scores" where
  "scoring_call apply_guardrail guardrail_id questions contexts answers i =
     invoke_rag_eval_guardrail apply_guardrail guardrail_id (questions ! i)
       (join [CHR 0x0A] (contexts ! i)) (answers ! i)"

section \<open>The persisted vector store (cell 9)\<close>

text \<open>
  The file system is a map from file names to contents. The FAISS and pickle calls are
  taken as functions. Building the index (which embeds every document through Bedrock and
  fails on an empty corpus), serialising it, unpickling and deserialising may each raise.
  Pickling a \<^verbatim>\<open>bytes\<close> value is a total encoding; failures of the file system
  itself are outside this model.
\<close>

type_synonym bytes = string

type_synonym filesystem = "string \<rightharpoonup> bytes"

record 'db vector_store_api =
  from_documents :: "document list \<Rightarrow> error + 'db"
  serialize_to_bytes :: "'db \<Rightarrow> error + bytes"
  deserialize_from_bytes :: "bytes \<Rightarrow> error + 'db"
  pickle_dumps :: "bytes \<Rightarrow> bytes"
  pickle_loads :: "bytes \<Rightarrow> error + bytes"

definition vector_store_file :: string where
  "vector_store_file = ''baseline_rag_vec_db.pkl''"

text \<open>
  \<^verbatim>\<open>
    if not Path(vector_store_file).exists(): CREATE_NEW = True
    else: CREATE_NEW = False
    if CREATE_NEW:
        vec_db = FAISS.from_documents(documents, embed_model)
        pickle.dump(vec_db.serialize_to_bytes(), open(vector_store_file, "wb"))
    else:
        if not Path(vector_store_file).exists(): raise FileNotFoundError(...)
        vector_db_buff = BytesIO(pickle.load(open(vector_store_file, "rb")))
        vec_db = FAISS.deserialize_from_bytes(serialized=vector_db_buff.read(), ...)
  \<close>
  The result is \<^verbatim>\<open>vec_db\<close> (or the exception) and the file system afterwards.
  In the build branch the arguments of \<^verbatim>\<open>pickle.dump\<close> are evaluated in order:
  the file is opened for writing only after the index is built and serialised.
\<close>

definition cell_9 ::
  "'db vector_store_api \<Rightarrow> document list \<Rightarrow> filesystem \<Rightarrow> (error + 'db) \<times> filesystem" where
  "cell_9 api documents fs =
     (let CREATE_NEW = (fs vector_store_file = None) in
      if CREATE_NEW then
        (case from_documents api documents of
           Inl e \<Rightarrow> (Inl e, fs)
         | Inr vec_db \<Rightarrow>
             (case serialize_to_bytes api vec_db of
                Inl e \<Rightarrow> (Inl e, fs)
              | Inr serialized \<Rightarrow>
                  (Inr vec_db, fs(vector_store_file \<mapsto> pickle_dumps api serialized))))
      else
        (case fs vector_store_file of
           None \<Rightarrow> (Inl (FileNotFoundError vector_store_file), fs)
         | Some content \<Rightarrow>
             (case pickle_loads api content of
                Inl e \<Rightarrow> (Inl e, fs)
              | Inr vector_db_buff \<Rightarrow> (deserialize_from_bytes api vector_db_buff, fs))))"

section \<open>Sample inputs\<close>

definition sample_doc :: "string \<Rightarrow> document" where
  "sample_doc uid = \<lparr>page_content = [], metadata = [''unique_id'' \<mapsto> uid]\<rparr>"

text \<open>
  Four questions at \<open>k = 3\<close>: the reference document comes first, second (and again
  third), not at all, not at all.
\<close>

definition sample_retriever :: retriever where
  "sample_retriever q =
     (if q = ''q1'' then Inr [sample_doc ''a'', sample_doc ''b'', sample_doc ''c'']
      else if q = ''q2'' then Inr [sample_doc ''c'', sample_doc ''b'', sample_doc ''b'']
      else Inr [sample_doc ''x'', sample_doc ''y'', sample_doc ''z''])"

definition sample_examples :: "eval_record list" where
  "sample_examples =
     [\<lparr>ref_doc_id = ''a'', question = ''q1''\<rparr>,
      \<lparr>ref_doc_id = ''b'', question = ''q2''\<rparr>,
      \<lparr>ref_doc_id = ''c'', question = ''q3''\<rparr>,
      \<lparr>ref_doc_id = ''d'', question = ''q4''\<rparr>]"

text \<open>A guardrail that raises on the answer \<open>''bad''\<close> and scores everything else alike.\<close>

definition sample_guardrail :: guardrail_service where
  "sample_guardrail guardrail_id context question_text response =
     (if response = ''bad'' then Inl (ClientError ''throttled'')
      else Inr [[\<lparr>mtype = ''GROUNDING'', score = 1 / 2\<rparr>,
                 \<lparr>mtype = ''RELEVANCE'', score = 1\<rparr>]])"

text \<open>
  A vector store whose index is the list of page contents, serialised by concatenation;
  like FAISS it cannot build an index from no documents.
\<close>

definition sample_api :: "string list vector_store_api" where
  "sample_api =
     \<lparr>from_documents =
        (\<lambda>documents. if documents = [] then Inl IndexError
                      else Inr (map page_content documents)),
      serialize_to_bytes = (\<lambda>vec_db. Inr (concat vec_db)),
      deserialize_from_bytes = (\<lambda>b. Inr [b]),
      pickle_dumps = (\<lambda>b. b),
      pickle_loads = Inr\<rparr>"

section \<open>Properties of the retriever evaluation\<close>

subsection \<open>The position \<^verbatim>\<open>list.index\<close> finds\<close>

lemma list_index_first:
  "x \<in> set xs \<Longrightarrow> list_index xs x = Inr (length (takeWhile (\<lambda>y. y \<noteq> x) xs))"
  by (induction xs) auto

lemma takeWhile_first:
  "x \<in> set xs \<Longrightarrow>
     length (takeWhile (\<lambda>y. y \<noteq> x) xs) < length xs
     \<and> xs ! length (takeWhile (\<lambda>y. y \<noteq> x) xs) = x
     \<and> x \<notin> set (take (length (takeWhile (\<lambda>y. y \<noteq> x) xs)) xs)"
  by (induction xs) auto

lemma first_position_first:
  assumes "ref \<in> set ids"
  shows "1 \<le> first_position ids ref \<and> first_position ids ref \<le> length ids
         \<and> ids ! (first_position ids ref - 1) = ref
         \<and> ref \<notin> set (take (first_position ids ref - 1) ids)"
  using takeWhile_first [OF assms] by (simp add: first_position_def)

subsection \<open>The loop computes the prose metrics\<close>

lemma eval_step_Inr:
  assumes "eval_step invoke e (c, s) = Inr (c', s')"
  shows "c' = c + spec_hit (example_ids invoke e) (ref_doc_id e)
         \<and> s' = s + spec_reciprocal_rank (example_ids invoke e) (ref_doc_id e)"
proof -
  from assms obtain returned_docs ids where
    docs: "invoke (question e) = Inr returned_docs" and
    ids: "returned_doc_ids returned_docs = Inr ids"
    by (auto simp: eval_step_def split: sum.splits)
  then have ex: "example_ids invoke e = ids"
    by (simp add: example_ids_def)
  show ?thesis
  proof (cases "ref_doc_id e \<in> set ids")
    case True
    with assms docs ids show ?thesis
      by (simp add: eval_step_def ex spec_hit_def spec_reciprocal_rank_def first_position_def
          list_index_first add.commute)
  next
    case False
    with assms docs ids show ?thesis
      by (simp add: eval_step_def ex spec_hit_def spec_reciprocal_rank_def)
  qed
qed

lemma eval_loop_Inr:
  "eval_loop invoke es (c, s) = Inr (c', s') \<Longrightarrow>
     c' = c + sum_list (map (\<lambda>e. spec_hit (example_ids invoke e) (ref_doc_id e)) es)
     \<and> s' = s + sum_list (map (\<lambda>e. spec_reciprocal_rank (example_ids invoke e) (ref_doc_id e)) es)"
proof (induction es arbitrary: c s)
  case Nil
  then show ?case by simp
next
  case (Cons e es)
  from Cons.prems obtain c1 s1 where
    step: "eval_step invoke e (c, s) = Inr (c1, s1)" and
    rest: "eval_loop invoke es (c1, s1) = Inr (c', s')"
    by (auto split: sum.splits)
  from Cons.IH [OF rest] eval_step_Inr [OF step] show ?case
    by (simp add: add.assoc)
qed

lemma sum_list_spec_hit:
  "sum_list (map (\<lambda>e. spec_hit (f e) (g e)) es) = length (filter (\<lambda>e. g e \<in> set (f e)) es)"
  by (induction es) (simp_all add: spec_hit_def)

lemma retriever_evaluation_Inr:
  assumes "retriever_evaluation invoke data n = Inr r"
  obtains correct reciprocal_rank where
    "eval_loop invoke (take n data) (0, 0) = Inr (correct, reciprocal_rank)"
    "0 < n" "hit_rate r = of_nat correct / of_nat n" "mrr r = reciprocal_rank / of_nat n"
  using assms
  by (auto simp: retriever_evaluation_def split: sum.splits if_splits prod.splits)

lemma retriever_evaluation_metrics:
  assumes "retriever_evaluation invoke data n = Inr r"
  shows "hit_rate r =
           of_nat (length (filter (\<lambda>e. ref_doc_id e \<in> set (example_ids invoke e)) (take n data)))
             / of_nat n"
    and "mrr r =
           sum_list (map (\<lambda>e. spec_reciprocal_rank (example_ids invoke e) (ref_doc_id e))
                      (take n data)) / of_nat n"
proof -
  from assms obtain correct reciprocal_rank where
    loop: "eval_loop invoke (take n data) (0, 0) = Inr (correct, reciprocal_rank)" and
    h: "hit_rate r = of_nat correct / of_nat n" and
    m: "mrr r = reciprocal_rank / of_nat n"
    by (rule retriever_evaluation_Inr)
  from eval_loop_Inr [OF loop] show
    "hit_rate r =
       of_nat (length (filter (\<lambda>e. ref_doc_id e \<in> set (example_ids invoke e)) (take n data)))
         / of_nat n"
    "mrr r =
       sum_list (map (\<lambda>e. spec_reciprocal_rank (example_ids invoke e) (ref_doc_id e))
                  (take n data)) / of_nat n"
    by (simp_all add: h m sum_list_spec_hit)
qed

text \<open>
  Where the data holds at least \<^verbatim>\<open>num_examples\<close> examples the slice has exactly that
  many, and the loop's quotients are the averages of the prose.
\<close>

lemma retriever_evaluation_full_slice:
  assumes "retriever_evaluation invoke data n = Inr r" and "n \<le> length data"
  shows "hit_rate r = spec_hit_rate invoke (take n data) \<and> mrr r = spec_mrr invoke (take n data)"
  using retriever_evaluation_metrics [OF assms(1)] assms(2)
  by (simp add: spec_hit_rate_def spec_mrr_def min_def)

subsection \<open>The sample run\<close>

lemmas sample_defs = sample_examples_def sample_retriever_def sample_doc_def

lemma sample_ids:
  "example_ids sample_retriever \<lparr>ref_doc_id = r, question = ''q1''\<rparr> = [''a'', ''b'', ''c'']"
  "example_ids sample_retriever \<lparr>ref_doc_id = r, question = ''q2''\<rparr> = [''c'', ''b'', ''b'']"
  "example_ids sample_retriever \<lparr>ref_doc_id = r, question = ''q3''\<rparr> = [''x'', ''y'', ''z'']"
  "example_ids sample_retriever \<lparr>ref_doc_id = r, question = ''q4''\<rparr> = [''x'', ''y'', ''z'']"
  by (simp_all add: example_ids_def sample_defs)

lemma sample_eval_loop:
  "eval_loop sample_retriever sample_examples (0, 0) = Inr (2, 3 / 2)"
  by (simp add: sample_defs eval_step_def)

lemma sample_retriever_evaluation:
  "retriever_evaluation sample_retriever sample_examples 4
     = Inr \<lparr>hit_rate = 1 / 2, mrr = 3 / 8\<rparr>"
proof -
  have "take 4 sample_examples = sample_examples"
    by (simp add: sample_examples_def)
  then show ?thesis
    by (simp add: retriever_evaluation_def sample_eval_loop)
qed

lemma sample_cell_13:
  "cell_13 sample_retriever sample_examples = Inr \<lparr>hit_rate = 1 / 200, mrr = 3 / 800\<rparr>"
proof -
  have "take num_examples sample_examples = sample_examples"
    by (simp add: sample_examples_def num_examples_def)
  then show ?thesis
    by (simp add: cell_13_def retriever_evaluation_def sample_eval_loop num_examples_def)
qed

lemma sample_spec_mrr: "spec_mrr sample_retriever sample_examples = 3 / 8"
  by (simp add: spec_mrr_def sample_examples_def sample_ids spec_reciprocal_rank_def first_position_def)

lemma sample_spec_hit_rate: "spec_hit_rate sample_retriever sample_examples = 1 / 2"
  by (simp add: spec_hit_rate_def sample_examples_def sample_ids)

text \<open>
  Claim C1. The MRR is to be the sum over all examples of the reciprocal of the 1-based
  position of the reference id in the returned id list, 0 when absent, divided by the number
  of examples: 3/8 for four examples with the reference at rank 1, rank 2, absent, absent.
  On these four examples the cell, with its \<^verbatim>\<open>num_examples = 400\<close>, returns 3/800:
  it divides by the constant, not by the number of examples the loop went through.
\<close>

theorem cell_13_mrr_divides_by_num_examples:
  "cell_13 sample_retriever sample_examples = Inr \<lparr>hit_rate = 1 / 200, mrr = 3 / 800\<rparr>
   \<and> spec_mrr sample_retriever sample_examples = 3 / 8"
  by (simp add: sample_cell_13 sample_spec_mrr)

text \<open>
  Claim C4. The hit rate is to equal exactly the number of examples whose reference id is
  in the returned id list, divided by the number of examples: 1/2 for the four examples
  above. The cell, with its \<^verbatim>\<open>num_examples = 400\<close>, returns 1/200.
\<close>

theorem cell_13_hit_rate_divides_by_num_examples:
  "cell_13 sample_retriever sample_examples = Inr \<lparr>hit_rate = 1 / 200, mrr = 3 / 800\<rparr>
   \<and> spec_hit_rate sample_retriever sample_examples = 1 / 2"
  by (simp add: sample_cell_13 sample_spec_hit_rate)

text \<open>
  Claim C7. Whenever the evaluation returns its metrics, the MRR is the sum over the
  evaluated examples of the reciprocal of \<open>first_position\<close> of the reference id in the
  example's returned id list (0 when absent), over \<^verbatim>\<open>num_examples\<close>; and
  \<open>first_position\<close> is the 1-based rank of the first occurrence: the reference id
  stands there and nowhere before, however often it occurs after.
\<close>

theorem reciprocal_rank_uses_first_occurrence:
  assumes "retriever_evaluation invoke data n = Inr r"
  shows "mrr r =
           sum_list (map (\<lambda>e. if ref_doc_id e \<in> set (example_ids invoke e)
                               then 1 / of_nat (first_position (example_ids invoke e) (ref_doc_id e))
                               else 0)
                      (take n data)) / of_nat n
         \<and> (\<forall>e\<in>set (take n data). ref_doc_id e \<in> set (example_ids invoke e) \<longrightarrow>
               1 \<le> first_position (example_ids invoke e) (ref_doc_id e)
               \<and> first_position (example_ids invoke e) (ref_doc_id e) \<le> length (example_ids invoke e)
               \<and> example_ids invoke e ! (first_position (example_ids invoke e) (ref_doc_id e) - 1)
                   = ref_doc_id e
               \<and> ref_doc_id e \<notin>
                   set (take (first_position (example_ids invoke e) (ref_doc_id e) - 1)
                          (example_ids invoke e)))"
proof -
  have "mrr r =
          sum_list (map (\<lambda>e. spec_reciprocal_rank (example_ids invoke e) (ref_doc_id e))
                     (take n data)) / of_nat n"
    using assms by (rule retriever_evaluation_metrics)
  then show ?thesis
    using first_position_first by (simp add: spec_reciprocal_rank_def)
qed

theorem reciprocal_rank_uses_first_occurrence_witness:
  "retriever_evaluation sample_retriever sample_examples 4 = Inr \<lparr>hit_rate = 1 / 2, mrr = 3 / 8\<rparr>
   \<and> example_ids sample_retriever \<lparr>ref_doc_id = ''b'', question = ''q2''\<rparr> = [''c'', ''b'', ''b'']
   \<and> first_position [''c'', ''b'', ''b''] ''b'' = 2
   \<and> (3 / 8 :: rat) = (1 / 1 + 1 / 2 + 0 + 0) / 4"
proof -
  note e = sample_retriever_evaluation
  from reciprocal_rank_uses_first_occurrence [OF e] e show ?thesis
    by (simp add: sample_ids first_position_def)
qed

subsection \<open>Bounds on the accumulators\<close>

lemma eval_step_bounds:
  assumes "eval_step invoke e (c, s) = Inr (c', s')"
  shows "(c' = c \<and> s' = s) \<or> (c' = Suc c \<and> s \<le> s' \<and> s' \<le> s + 1)"
proof -
  have r: "0 \<le> 1 / (rat_of_nat i + 1) \<and> 1 / (rat_of_nat i + 1) \<le> 1" for i
    by (simp add: divide_simps)
  from assms show ?thesis
    using r by (auto simp: eval_step_def split: sum.splits if_splits)
qed

lemma eval_loop_bounds:
  "eval_loop invoke es (c, s) = Inr (c', s') \<Longrightarrow>
     c \<le> c' \<and> c' \<le> c + length es \<and> s \<le> s' \<and> s' + of_nat c \<le> s + of_nat c'"
proof (induction es arbitrary: c s)
  case Nil
  then show ?case by simp
next
  case (Cons e es)
  from Cons.prems obtain c1 s1 where
    step: "eval_step invoke e (c, s) = Inr (c1, s1)" and
    rest: "eval_loop invoke es (c1, s1) = Inr (c', s')"
    by (auto split: sum.splits)
  from Cons.IH [OF rest] eval_step_bounds [OF step] show ?case
    by auto
qed

text \<open>
  Claim C8. For every example set, every retriever and every \<^verbatim>\<open>num_examples\<close>, the
  hit rate and the MRR the evaluation produces both lie between 0 and 1.
\<close>

theorem metrics_in_unit_interval:
  assumes "retriever_evaluation invoke data n = Inr r"
  shows "0 \<le> hit_rate r \<and> hit_rate r \<le> 1 \<and> 0 \<le> mrr r \<and> mrr r \<le> 1"
proof -
  from assms obtain correct reciprocal_rank where
    loop: "eval_loop invoke (take n data) (0, 0) = Inr (correct, reciprocal_rank)" and
    n: "0 < n" and
    h: "hit_rate r = of_nat correct / of_nat n" and
    m: "mrr r = reciprocal_rank / of_nat n"
    by (rule retriever_evaluation_Inr)
  from eval_loop_bounds [OF loop] have
    c: "correct \<le> n" and s0: "0 \<le> reciprocal_rank" and sc: "reciprocal_rank \<le> of_nat correct"
    by simp_all
  from c have cn: "(of_nat correct :: rat) \<le> of_nat n"
    by simp
  with sc have sn: "reciprocal_rank \<le> of_nat n"
    by linarith
  from n cn sn s0 show ?thesis
    by (simp add: h m divide_simps)
qed

theorem metrics_in_unit_interval_witness:
  "retriever_evaluation sample_retriever sample_examples 4 = Inr \<lparr>hit_rate = 1 / 2, mrr = 3 / 8\<rparr>
   \<and> (0::rat) \<le> 1 / 2 \<and> (1 / 2 :: rat) \<le> 1 \<and> (0::rat) \<le> 3 / 8 \<and> (3 / 8 :: rat) \<le> 1"
proof -
  note e = sample_retriever_evaluation
  from metrics_in_unit_interval [OF e] e show ?thesis
    by simp
qed

text \<open>
  Claim C10. For every example set and every retriever (the dense one of cell 13 and the
  ensemble of cell 15 run the same loop), the MRR the evaluation produces is at most its
  hit rate.
\<close>

theorem mrr_le_hit_rate:
  assumes "retriever_evaluation invoke data n = Inr r"
  shows "mrr r \<le> hit_rate r"
proof -
  from assms obtain correct reciprocal_rank where
    loop: "eval_loop invoke (take n data) (0, 0) = Inr (correct, reciprocal_rank)" and
    n: "0 < n" and
    h: "hit_rate r = of_nat correct / of_nat n" and
    m: "mrr r = reciprocal_rank / of_nat n"
    by (rule retriever_evaluation_Inr)
  from eval_loop_bounds [OF loop] have "reciprocal_rank \<le> of_nat correct"
    by simp
  with n show ?thesis
    by (simp add: h m divide_right_mono)
qed

theorem mrr_le_hit_rate_witness:
  "cell_13 sample_retriever sample_examples = Inr \<lparr>hit_rate = 1 / 200, mrr = 3 / 800\<rparr>
   \<and> (3 / 800 :: rat) \<le> 1 / 200"
proof -
  have e: "retriever_evaluation sample_retriever sample_examples num_examples
             = Inr \<lparr>hit_rate = 1 / 200, mrr = 3 / 800\<rparr>"
    using sample_cell_13 by (simp add: cell_13_def)
  from mrr_le_hit_rate [OF e] e show ?thesis
    by (simp add: cell_13_def)
qed


section \<open>Properties of the answer evaluation\<close>

lemma collect_results_first_error:
  "j < length rs \<Longrightarrow> rs ! j = Inl e \<Longrightarrow>
   \<exists>i e'. i \<le> j \<and> rs ! i = Inl e' \<and> (\<forall>k<i. \<exists>row. rs ! k = Inr row)
          \<and> collect_results rs = Inl e'"
proof (induction rs arbitrary: j)
  case Nil
  then show ?case by simp
next
  case (Cons r rs)
  show ?case
  proof (cases r)
    case (Inl e0)
    then have "(r # rs) ! 0 = Inl e0 \<and> collect_results (r # rs) = Inl e0"
      by simp
    then show ?thesis
      by blast
  next
    case (Inr row0)
    with Cons.prems obtain j' where j': "j = Suc j'" "j' < length rs" "rs ! j' = Inl e"
      by (cases j) auto
    from Cons.IH [OF j'(2,3)] obtain i e' where
      i: "i \<le> j'" "rs ! i = Inl e'" "\<forall>k<i. \<exists>row. rs ! k = Inr row" "collect_results rs = Inl e'"
      by blast
    have "\<forall>k<Suc i. \<exists>row. (r # rs) ! k = Inr row"
      using Inr i(3) by (auto simp: nth_Cons split: nat.splits)
    moreover have "Suc i \<le> j" "(r # rs) ! Suc i = Inl e'" "collect_results (r # rs) = Inl e'"
      using Inr i j'(1) by simp_all
    ultimately show ?thesis
      by blast
  qed
qed

lemma submit_all_nth:
  assumes "i < length questions" "i < length contexts" "i < length answers"
  shows "i < length (submit_all svc gid questions contexts answers)"
    and "submit_all svc gid questions contexts answers ! i
           = scoring_call svc gid questions contexts answers i"
  using assms by (simp_all add: submit_all_def scoring_call_def)

text \<open>
  Claim C3, amended. When the scoring call fails on the triple at index \<open>j\<close>, the
  batch evaluation returns no mean at all: it ends with the exception of the failing call
  of lowest index \<open>i \<le> j\<close>, passed on as the call raised it.
\<close>

theorem guardrail_batch_raises_first_error:
  assumes "j < length questions" and "j < length contexts" and "j < length answers"
    and "scoring_call svc gid questions contexts answers j = Inl e"
  shows "\<exists>i e'. i \<le> j
           \<and> scoring_call svc gid questions contexts answers i = Inl e'
           \<and> (\<forall>k<i. \<exists>row. scoring_call svc gid questions contexts answers k = Inr row)
           \<and> evaluate_rag_guardrail svc gid questions contexts answers = Inl e'"
proof -
  let ?rs = "submit_all svc gid questions contexts answers"
  have nth: "?rs ! k = scoring_call svc gid questions contexts answers k" if "k \<le> j" for k
    using that assms(1-3) by (intro submit_all_nth) simp_all
  have "j < length ?rs" "?rs ! j = Inl e"
    using assms submit_all_nth [of j questions contexts answers svc gid] by simp_all
  from collect_results_first_error [OF this] obtain i e' where
    i: "i \<le> j" "?rs ! i = Inl e'" "\<forall>k<i. \<exists>row. ?rs ! k = Inr row" "collect_results ?rs = Inl e'"
    by blast
  have "scoring_call svc gid questions contexts answers i = Inl e'"
    using i(1,2) nth by simp
  moreover have "\<forall>k<i. \<exists>row. scoring_call svc gid questions contexts answers k = Inr row"
    using i(1,3) nth by simp
  moreover have "evaluate_rag_guardrail svc gid questions contexts answers = Inl e'"
    using i(4) by (simp add: evaluate_rag_guardrail_def)
  ultimately show ?thesis
    using i(1) by blast
qed

lemma sample_guardrail_call:
  "invoke_rag_eval_guardrail sample_guardrail gid q c ''bad'' = Inl (ClientError ''throttled'')"
  "invoke_rag_eval_guardrail sample_guardrail gid q c ''ok''
     = Inr \<lparr>grounding_score = 1 / 2, relevance_score = 1\<rparr>"
  by (simp_all add: invoke_rag_eval_guardrail_def sample_guardrail_def first_item_def)

theorem guardrail_batch_raises_first_error_witness:
  "(2::nat) < length [''q0'', ''q1'', ''q2'']
   \<and> (2::nat) < length [[''c0''], [''c1''], [''c2'', ''c3'']]
   \<and> (2::nat) < length [''ok'', ''bad'', ''bad'']
   \<and> scoring_call sample_guardrail ''g'' [''q0'', ''q1'', ''q2'']
        [[''c0''], [''c1''], [''c2'', ''c3'']] [''ok'', ''bad'', ''bad''] 2
        = Inl (ClientError ''throttled'')
   \<and> evaluate_rag_guardrail sample_guardrail ''g'' [''q0'', ''q1'', ''q2'']
        [[''c0''], [''c1''], [''c2'', ''c3'']] [''ok'', ''bad'', ''bad'']
        = Inl (ClientError ''throttled'')"
proof -
  have h: "(2::nat) < length [''q0'', ''q1'', ''q2'']"
    "(2::nat) < length [[''c0''], [''c1''], [''c2'', ''c3'']]"
    "(2::nat) < length [''ok'', ''bad'', ''bad'']"
    "scoring_call sample_guardrail ''g'' [''q0'', ''q1'', ''q2'']
        [[''c0''], [''c1''], [''c2'', ''c3'']] [''ok'', ''bad'', ''bad''] 2
        = Inl (ClientError ''throttled'')"
    by (simp_all add: scoring_call_def sample_guardrail_call)
  from guardrail_batch_raises_first_error [OF h] obtain i :: nat and e' where
    "evaluate_rag_guardrail sample_guardrail ''g'' [''q0'', ''q1'', ''q2'']
        [[''c0''], [''c1''], [''c2'', ''c3'']] [''ok'', ''bad'', ''bad''] = Inl e'"
    by blast
  moreover have "evaluate_rag_guardrail sample_guardrail ''g'' [''q0'', ''q1'', ''q2'']
        [[''c0''], [''c1''], [''c2'', ''c3'']] [''ok'', ''bad'', ''bad'']
        = Inl (ClientError ''throttled'')"
    by (simp add: evaluate_rag_guardrail_def submit_all_def sample_guardrail_call)
  ultimately show ?thesis
    using h by simp
qed

text \<open>
  The outcome does not tell where the failure was: a batch failing at index 0 and a
  batch failing at index 1 end with the same exception.
\<close>

theorem guardrail_error_without_index_counterexample:
  "evaluate_rag_guardrail sample_guardrail ''g'' [''q0'', ''q1''] [[''c0''], [''c1'']] [''bad'', ''ok'']
     = Inl (ClientError ''throttled'')
   \<and> evaluate_rag_guardrail sample_guardrail ''g'' [''q0'', ''q1''] [[''c0''], [''c1'']] [''ok'', ''bad'']
     = Inl (ClientError ''throttled'')"
  by (simp add: evaluate_rag_guardrail_def submit_all_def sample_guardrail_call)

lemma sample_evaluate_ok:
  "evaluate_rag_guardrail sample_guardrail ''g'' [''q0'', ''q1''] [[''c0''], [''c1'']] [''ok'', ''ok'']
     = Inr (1 / 2, 1)"
  by (simp add: evaluate_rag_guardrail_def submit_all_def sample_guardrail_call)

section \<open>Properties of the vector store cell\<close>

text \<open>A file that exists before the cell runs keeps its content.\<close>

lemma cell_9_keeps_file:
  "fs vector_store_file = Some content \<Longrightarrow> snd (cell_9 api documents fs) = fs"
  by (simp add: cell_9_def split: sum.splits)

text \<open>Once a run has produced an index, running the cell again changes no file.\<close>

lemma cell_9_write_once:
  assumes "fst (cell_9 api documents fs) = Inr vec_db"
  shows "snd (cell_9 api documents' (snd (cell_9 api documents fs)))
           = snd (cell_9 api documents fs)"
proof -
  from assms have "snd (cell_9 api documents fs) vector_store_file \<noteq> None"
    by (auto simp: cell_9_def split: option.splits sum.splits if_splits)
  then show ?thesis
    using cell_9_keeps_file by blast
qed

text \<open>
  Claim C9. When the vector store file is absent, the index is built from the documents
  and, once built and serialised, written to the file; a build or a serialisation that
  raises creates no file. When the file is present, its content is loaded and deserialised,
  and the file system is left as it was.
\<close>

theorem vector_store_check_before_create:
  "(fs vector_store_file = None \<longrightarrow>
      (\<forall>vec_db serialized.
          from_documents api documents = Inr vec_db \<longrightarrow>
          serialize_to_bytes api vec_db = Inr serialized \<longrightarrow>
          cell_9 api documents fs =
            (Inr vec_db, fs(vector_store_file \<mapsto> pickle_dumps api serialized)))
      \<and> (\<forall>e. from_documents api documents = Inl e \<longrightarrow>
             cell_9 api documents fs = (Inl e, fs))
      \<and> (\<forall>vec_db e.
             from_documents api documents = Inr vec_db \<longrightarrow>
             serialize_to_bytes api vec_db = Inl e \<longrightarrow>
             cell_9 api documents fs = (Inl e, fs)))
   \<and> (\<forall>content. fs vector_store_file = Some content \<longrightarrow>
        cell_9 api documents fs =
          (case pickle_loads api content of
             Inl e \<Rightarrow> Inl e
           | Inr vector_db_buff \<Rightarrow> deserialize_from_bytes api vector_db_buff,
           fs))"
  by (auto simp: cell_9_def split: sum.splits)

theorem vector_store_check_before_create_witness:
  "cell_9 sample_api [\<lparr>page_content = ''ab'', metadata = Map.empty\<rparr>,
                      \<lparr>page_content = ''cd'', metadata = Map.empty\<rparr>] Map.empty
     = (Inr [''ab'', ''cd''], [vector_store_file \<mapsto> ''abcd''])
   \<and> cell_9 sample_api [] Map.empty = (Inl IndexError, Map.empty)
   \<and> cell_9 sample_api [\<lparr>page_content = ''ab'', metadata = Map.empty\<rparr>] [vector_store_file \<mapsto> ''old'']
     = (Inr [''old''], [vector_store_file \<mapsto> ''old''])"
proof -
  have a: "(Map.empty :: filesystem) vector_store_file = None"
    by simp
  have b: "[vector_store_file \<mapsto> ''old''] vector_store_file = Some ''old''"
    by simp
  from vector_store_check_before_create [of Map.empty sample_api
      "[\<lparr>page_content = ''ab'', metadata = Map.empty\<rparr>, \<lparr>page_content = ''cd'', metadata = Map.empty\<rparr>]"]
    vector_store_check_before_create [of Map.empty sample_api "[]"]
    vector_store_check_before_create [of "[vector_store_file \<mapsto> ''old'']" sample_api
      "[\<lparr>page_content = ''ab'', metadata = Map.empty\<rparr>]"] a b
  show ?thesis
    by (simp add: sample_api_def)
qed

end
